theory Spec2Isabelle
  imports Main "HOL-Library.Word" "HOL-Library.Multiset"
begin

section \<open>Attribute values\<close>

text \<open>
  The lowering configuration of IREE's code generation
  (\<^verbatim>\<open>compiler/src/iree/compiler/Codegen/Dialect/LoweringConfig.cpp\<close>) stores its data
  in attributes of the host IR. An attribute handle of the source is either null or refers
  to an immutable value; a nullable handle is an \<open>option\<close> here, \<open>None\<close> being null.

  \<^verbatim>\<open>int64_t\<close> is a 64-bit word. An \<open>IntegerAttr\<close> holds its type and its value; the
  source builds the value as \<^verbatim>\<open>APInt(64, value)\<close> and reads it back with \<^verbatim>\<open>getInt()\<close>,
  both of which keep the 64 bits as they are.
\<close>

type_synonym int64 = "64 word"

datatype Type = IndexType | IntegerType nat

datatype Attribute =
    IntegerAttr Type int64
  | ArrayAttr "Attribute list"
  | OtherAttr string

text \<open>
  A cast to the wrong attribute kind (\<^verbatim>\<open>attr.cast<IntegerAttr>()\<close>) and an index past
  the end of a \<^verbatim>\<open>SmallVector\<close> are assertion failures of the source. They are values of
  the model: a function that can hit one returns \<open>fault + 'a\<close>.
\<close>

datatype fault = BadCast | IndexOutOfRange

text \<open>
  \<^verbatim>\<open>LogicalResult\<close> with the diagnostic that was emitted on failure. \<^verbatim>\<open>emitError()\<close> of
  a verifier carries only the message; \<^verbatim>\<open>op->emitOpError(msg)\<close> is attached to an
  operation, identified by \<open>opId\<close> below.
\<close>

datatype diagnostic = EmitError string | EmitOpError nat string

datatype LogicalResult = success | failure diagnostic

subsection \<open>Utility functions\<close>

text \<open>\<^verbatim>\<open>checkIntegerArrayAttr\<close>: no element fails to be an \<open>IntegerAttr\<close>.\<close>

fun isaIntegerAttr :: "Attribute \<Rightarrow> bool" where
  "isaIntegerAttr (IntegerAttr t v) = True"
| "isaIntegerAttr (ArrayAttr as) = False"
| "isaIntegerAttr (OtherAttr s) = False"

definition checkIntegerArrayAttr :: "Attribute list \<Rightarrow> bool" where
  "checkIntegerArrayAttr arrayAttr = (\<not> list_ex (\<lambda>attr. \<not> isaIntegerAttr attr) arrayAttr)"

definition getIndexIntegerArrayAttr :: "int64 list \<Rightarrow> Attribute list" where
  "getIndexIntegerArrayAttr values = map (\<lambda>value. IntegerAttr IndexType value) values"

definition getI64IntegerArrayAttr :: "int64 list \<Rightarrow> Attribute list" where
  "getI64IntegerArrayAttr values = map (\<lambda>value. IntegerAttr (IntegerType 64) value) values"

text \<open>
  \<^verbatim>\<open>getIntegerVals\<close>: the empty vector for a null handle, otherwise the value of every
  element in order; the first element that is not an \<open>IntegerAttr\<close> fails the cast.
\<close>

fun castIntegerVals :: "Attribute list \<Rightarrow> fault + int64 list" where
  "castIntegerVals [] = Inr []"
| "castIntegerVals (IntegerAttr t v # as) =
     (case castIntegerVals as of Inl f \<Rightarrow> Inl f | Inr vs \<Rightarrow> Inr (v # vs))"
| "castIntegerVals (ArrayAttr xs # as) = Inl BadCast"
| "castIntegerVals (OtherAttr s # as) = Inl BadCast"

definition getIntegerVals :: "Attribute list option \<Rightarrow> fault + int64 list" where
  "getIntegerVals arrayAttr =
     (case arrayAttr of None \<Rightarrow> Inr [] | Some as \<Rightarrow> castIntegerVals as)"

section \<open>\<^verbatim>\<open>iree_codegen.translation_info\<close>\<close>

text \<open>
  The enum \<^verbatim>\<open>DispatchLoweringPassPipeline\<close> is generated from a table that is not part
  of the source file, so it is a parameter of the model: the numeric values of its
  enumerators, the value of the enumerator \<^verbatim>\<open>None\<close>, and \<^verbatim>\<open>stringifyEnum\<close>. A value
  of the enum type is its underlying number; the type itself does not confine a value to
  the enumerators, which is why the verifier checks it.
\<close>

record DispatchLoweringPassPipeline =
  enumerators :: "nat list"
  enumNone :: nat
  stringifyEnum :: "nat \<Rightarrow> string"

record TranslationInfoAttr =
  passPipeline :: "nat option"
  workloadPerWorkgroup :: "Attribute list option"

definition TranslationInfoAttr_get :: "nat \<Rightarrow> int64 list \<Rightarrow> TranslationInfoAttr" where
  "TranslationInfoAttr_get pipeline workload =
     \<lparr>passPipeline = Some pipeline,
      workloadPerWorkgroup = Some (getI64IntegerArrayAttr workload)\<rparr>"

definition getWorkloadPerWorkgroupVals :: "TranslationInfoAttr \<Rightarrow> fault + int64 list" where
  "getWorkloadPerWorkgroupVals info = getIntegerVals (workloadPerWorkgroup info)"

definition TranslationInfoAttr_verify ::
  "DispatchLoweringPassPipeline \<Rightarrow> nat option \<Rightarrow> Attribute list option \<Rightarrow> LogicalResult" where
  "TranslationInfoAttr_verify E pipeline workload =
     (case pipeline of
        None \<Rightarrow> failure (EmitError ''missing pass pipeline specification'')
      | Some passPipelineValue \<Rightarrow>
          if passPipelineValue > enumNone E
          then failure (EmitError (''invalid pass pipeline value : ''
                                   @ stringifyEnum E passPipelineValue))
          else success)"

section \<open>\<^verbatim>\<open>iree_codegen.lowering_config\<close>\<close>

record LoweringConfigAttr =
  tileSizes :: "Attribute list option"
  tileInterchange :: "Attribute list option"
  nativeVectorSize :: "Attribute list option"

definition attrList :: "int64 list list \<Rightarrow> Attribute list" where
  "attrList lst = map (\<lambda>sizes. ArrayAttr (getI64IntegerArrayAttr sizes)) lst"

definition LoweringConfigAttr_get ::
  "int64 list list \<Rightarrow> int64 list list \<Rightarrow> int64 list \<Rightarrow> LoweringConfigAttr" where
  "LoweringConfigAttr_get sizes interchange vectorSize =
     \<lparr>tileSizes = Some (attrList sizes),
      tileInterchange = Some (attrList interchange),
      nativeVectorSize = Some (getI64IntegerArrayAttr vectorSize)\<rparr>"

text \<open>\<^verbatim>\<open>attr.cast<ArrayAttr>()\<close> followed by \<^verbatim>\<open>getIntegerVals\<close>.\<close>

fun castArrayIntegerVals :: "Attribute \<Rightarrow> fault + int64 list" where
  "castArrayIntegerVals (ArrayAttr as) = getIntegerVals (Some as)"
| "castArrayIntegerVals (IntegerAttr t v) = Inl BadCast"
| "castArrayIntegerVals (OtherAttr s) = Inl BadCast"

text \<open>The accessors for one level: out of range or absent is the empty vector.\<close>

definition getTileSizeVals :: "LoweringConfigAttr \<Rightarrow> nat \<Rightarrow> fault + int64 list" where
  "getTileSizeVals config level =
     (case tileSizes config of
        None \<Rightarrow> Inr []
      | Some tileSizesAttr \<Rightarrow>
          if length tileSizesAttr \<le> level then Inr []
          else castArrayIntegerVals (tileSizesAttr ! level))"

definition getTileInterchangeVals :: "LoweringConfigAttr \<Rightarrow> nat \<Rightarrow> fault + int64 list" where
  "getTileInterchangeVals config level =
     (case tileInterchange config of
        None \<Rightarrow> Inr []
      | Some tileInterchangeAttr \<Rightarrow>
          if length tileInterchangeAttr \<le> level then Inr []
          else castArrayIntegerVals (tileInterchangeAttr ! level))"

definition getNativeVectorSizeVals :: "LoweringConfigAttr \<Rightarrow> fault + int64 list" where
  "getNativeVectorSizeVals config =
     (case nativeVectorSize config of
        None \<Rightarrow> Inr []
      | Some nativeVectorSizeAttr \<Rightarrow> getIntegerVals (Some nativeVectorSizeAttr))"

text \<open>
  The verifier. \<^verbatim>\<open>hasNonIntElems\<close>: some element is not an \<open>ArrayAttr\<close> (the
  \<^verbatim>\<open>dyn_cast\<close> gives null) or is one with an element that is not an \<open>IntegerAttr\<close>.
\<close>

fun notIntegerArray :: "Attribute \<Rightarrow> bool" where
  "notIntegerArray (ArrayAttr as) = (\<not> checkIntegerArrayAttr as)"
| "notIntegerArray (IntegerAttr t v) = True"
| "notIntegerArray (OtherAttr s) = True"

definition hasNonIntElems :: "Attribute list \<Rightarrow> bool" where
  "hasNonIntElems sizes = list_ex notIntegerArray sizes"

definition LoweringConfigAttr_verify ::
  "Attribute list option \<Rightarrow> Attribute list option \<Rightarrow> Attribute list option \<Rightarrow> LogicalResult" where
  "LoweringConfigAttr_verify sizes interchange vectorSize =
     (case sizes of
        None \<Rightarrow> failure (EmitError
          ''expected tile_sizes to be specified (even is specified as empty)'')
      | Some sizesAttr \<Rightarrow>
          if hasNonIntElems sizesAttr
          then failure (EmitError
            ''expected all elements of tile_sizes to be a list of integers'')
          else if (case interchange of None \<Rightarrow> False | Some ic \<Rightarrow> hasNonIntElems ic)
          then failure (EmitError
            ''expected all elements of tile_interchange to be a list of integers'')
          else if (case vectorSize of None \<Rightarrow> False | Some nv \<Rightarrow> \<not> checkIntegerArrayAttr nv)
          then failure (EmitError
            ''expected native_vector_size to be a list of integer values'')
          else success)"

section \<open>\<^verbatim>\<open>iree.compilation_info\<close>\<close>

record CompilationInfoAttr =
  loweringConfig :: "LoweringConfigAttr option"
  translationInfo :: "TranslationInfoAttr option"
  workgroupSize :: "Attribute list option"

text \<open>
  The three builders. The first one passes \<^verbatim>\<open>DispatchLoweringPassPipeline::None\<close> and
  leaves the workload to its default argument, the empty list.
\<close>

definition CompilationInfoAttr_get ::
  "DispatchLoweringPassPipeline \<Rightarrow> int64 list list \<Rightarrow> int64 list list \<Rightarrow> int64 list
     \<Rightarrow> int64 list \<Rightarrow> CompilationInfoAttr" where
  "CompilationInfoAttr_get E sizes interchange vectorSize wgSize =
     \<lparr>loweringConfig = Some (LoweringConfigAttr_get sizes interchange vectorSize),
      translationInfo = Some (TranslationInfoAttr_get (enumNone E) []),
      workgroupSize = Some (getI64IntegerArrayAttr wgSize)\<rparr>"

definition CompilationInfoAttr_get_pipeline ::
  "int64 list list \<Rightarrow> int64 list list \<Rightarrow> int64 list \<Rightarrow> nat \<Rightarrow> int64 list
     \<Rightarrow> int64 list \<Rightarrow> CompilationInfoAttr" where
  "CompilationInfoAttr_get_pipeline sizes interchange vectorSize pipeline workload wgSize =
     \<lparr>loweringConfig = Some (LoweringConfigAttr_get sizes interchange vectorSize),
      translationInfo = Some (TranslationInfoAttr_get pipeline workload),
      workgroupSize = Some (getI64IntegerArrayAttr wgSize)\<rparr>"

definition CompilationInfoAttr_get_attrs ::
  "LoweringConfigAttr option \<Rightarrow> TranslationInfoAttr option \<Rightarrow> int64 list
     \<Rightarrow> CompilationInfoAttr" where
  "CompilationInfoAttr_get_attrs configAttr info wgSize =
     \<lparr>loweringConfig = configAttr,
      translationInfo = info,
      workgroupSize = Some (getI64IntegerArrayAttr wgSize)\<rparr>"

definition CompilationInfoAttr_verify ::
  "DispatchLoweringPassPipeline \<Rightarrow> LoweringConfigAttr option \<Rightarrow> TranslationInfoAttr option
     \<Rightarrow> Attribute list option \<Rightarrow> LogicalResult" where
  "CompilationInfoAttr_verify E configAttr info wgSize =
     (case configAttr of
        None \<Rightarrow> failure (EmitError ''missing lowering config'')
      | Some config \<Rightarrow>
         (case LoweringConfigAttr_verify (tileSizes config) (tileInterchange config)
                 (nativeVectorSize config) of
            failure d \<Rightarrow> failure d
          | success \<Rightarrow>
             (case info of
                None \<Rightarrow> failure (EmitError ''missing translation info'')
              | Some ti \<Rightarrow>
                 (case TranslationInfoAttr_verify E (passPipeline ti)
                         (workloadPerWorkgroup ti) of
                    failure d \<Rightarrow> failure d
                  | success \<Rightarrow>
                      if (case wgSize of None \<Rightarrow> False
                          | Some ws \<Rightarrow> \<not> checkIntegerArrayAttr ws)
                      then failure (EmitError
                        ''expected workgroup_size to be a list of integers'')
                      else success))))"

definition getWorkgroupSizeVals :: "CompilationInfoAttr \<Rightarrow> fault + int64 list" where
  "getWorkgroupSizeVals info =
     (case workgroupSize info of
        None \<Rightarrow> Inr []
      | Some workgroupSizeAttr \<Rightarrow> getIntegerVals (Some workgroupSizeAttr))"

section \<open>Operations and the distribution configuration of a dispatch\<close>

text \<open>
  An operation, as far as this file reads it: its identity (the \<^verbatim>\<open>Operation *\<close>), its
  attribute dictionary, and its \<^verbatim>\<open>PartitionableLoopsInterface\<close>, which is \<open>None\<close>
  where the \<^verbatim>\<open>dyn_cast\<close> to the interface gives null and otherwise the method
  \<^verbatim>\<open>getPartitionableLoops\<close>, from the bound on the number of loops to the loop ids.
  The interface and the constant \<^verbatim>\<open>kNumMaxParallelDims\<close> are declared outside the source
  file; the constant is the parameter \<open>k\<close> of the functions below. Loop ids are
  \<^verbatim>\<open>unsigned\<close>, 32-bit words.
\<close>

type_synonym unsigned = "32 word"

datatype NamedAttr =
    BuiltinA Attribute
  | LoweringConfigA LoweringConfigAttr
  | TranslationInfoA TranslationInfoAttr
  | CompilationInfoA CompilationInfoAttr

record Operation =
  opId :: nat
  attrs :: "string \<rightharpoonup> NamedAttr"
  partitionableLoopsInterface :: "(nat \<Rightarrow> unsigned list) option"

definition kConfigAttrName :: string where
  "kConfigAttrName = ''lowering_config''"

text \<open>\<^verbatim>\<open>getAttrOfType\<close>: null unless the attribute is there and has the type asked for.\<close>

definition getLoweringConfig :: "Operation \<Rightarrow> LoweringConfigAttr option" where
  "getLoweringConfig op =
     (case attrs op kConfigAttrName of
        Some (LoweringConfigA config) \<Rightarrow> Some config
      | _ \<Rightarrow> None)"

definition getTileSizes :: "Operation \<Rightarrow> nat \<Rightarrow> fault + int64 list" where
  "getTileSizes op level =
     (case getLoweringConfig op of
        None \<Rightarrow> Inr []
      | Some configAttr \<Rightarrow> getTileSizeVals configAttr level)"

definition setLoweringConfig :: "Operation \<Rightarrow> LoweringConfigAttr \<Rightarrow> Operation" where
  "setLoweringConfig op config =
     op\<lparr>attrs := (attrs op)(kConfigAttrName \<mapsto> LoweringConfigA config)\<rparr>"

text \<open>
  The inner loop of \<^verbatim>\<open>getDistributionTileConfigFromLoweringConfig\<close>: for every
  partitionable loop that has a tile size, write the size at the loop's index. The write
  \<^verbatim>\<open>currDistributedTileSizes[loopID]\<close> asserts that the index is in range.
\<close>

fun fillDistributedTileSizes ::
  "unsigned list \<Rightarrow> int64 list \<Rightarrow> int64 list \<Rightarrow> fault + int64 list" where
  "fillDistributedTileSizes [] sizes currSizes = Inr currSizes"
| "fillDistributedTileSizes (loopID # loops) sizes currSizes =
     (if unat loopID < length sizes
      then (if unat loopID < length currSizes
            then fillDistributedTileSizes loops sizes (currSizes[unat loopID := sizes ! unat loopID])
            else Inl IndexOutOfRange)
      else fillDistributedTileSizes loops sizes currSizes)"

text \<open>
  \<^verbatim>\<open>currDistributedTileSizes\<close>: resized to \<^verbatim>\<open>partitionableLoops.back() + 1\<close> zeros
  (the sum is unsigned and wraps) when there is a partitionable loop, then filled.
\<close>

definition currDistributedTileSizes :: "unsigned list \<Rightarrow> int64 list \<Rightarrow> fault + int64 list" where
  "currDistributedTileSizes loops sizes =
     fillDistributedTileSizes loops sizes
       (if loops \<noteq> [] then replicate (unat (last loops + 1)) 0 else [])"

text \<open>
  What one operation contributes, the body of the outer loop up to the comparison:
  \<open>None\<close> for an operation that is skipped (\<^verbatim>\<open>continue\<close>), otherwise the pair of
  \<^verbatim>\<open>currDistributedTileSizes\<close> and \<^verbatim>\<open>currInterchange\<close>, or the fault met on the way.
\<close>

definition currDistribution ::
  "nat \<Rightarrow> Operation \<Rightarrow> (fault + int64 list \<times> int64 list) option" where
  "currDistribution k op =
     (case partitionableLoopsInterface op of
        None \<Rightarrow> None
      | Some getPartitionableLoops \<Rightarrow>
         (case getLoweringConfig op of
            None \<Rightarrow> None
          | Some currLoweringConfig \<Rightarrow>
              Some (case getTileSizeVals currLoweringConfig 0 of
                      Inl f \<Rightarrow> Inl f
                    | Inr sizes \<Rightarrow>
                       (case getTileInterchangeVals currLoweringConfig 0 of
                          Inl f \<Rightarrow> Inl f
                        | Inr currInterchange \<Rightarrow>
                           (case currDistributedTileSizes (getPartitionableLoops k) sizes of
                              Inl f \<Rightarrow> Inl f
                            | Inr currSizes \<Rightarrow> Inr (currSizes, currInterchange))))))"

text \<open>
  The outer loop, with the two output vectors as the state. \<open>front\<close> is
  \<^verbatim>\<open>computeOps.front()\<close>. The result is the \<^verbatim>\<open>LogicalResult\<close> together with the
  contents of the output vectors at the return.
\<close>

fun scanComputeOps ::
  "nat \<Rightarrow> Operation \<Rightarrow> Operation list \<Rightarrow> int64 list \<times> int64 list
     \<Rightarrow> fault + LogicalResult \<times> int64 list \<times> int64 list" where
  "scanComputeOps k front [] (distributedTileSizes, interchange) =
     Inr (success, distributedTileSizes, interchange)"
| "scanComputeOps k front (op # ops) (distributedTileSizes, interchange) =
     (case currDistribution k op of
        None \<Rightarrow> scanComputeOps k front ops (distributedTileSizes, interchange)
      | Some (Inl f) \<Rightarrow> Inl f
      | Some (Inr (currSizes, currInterchange)) \<Rightarrow>
          if distributedTileSizes = []
          then scanComputeOps k front ops (currSizes, currInterchange)
          else if currSizes \<noteq> distributedTileSizes \<or> currInterchange \<noteq> interchange
          then Inr (failure (EmitOpError (opId front)
                      ''inconsistent distribution of ops for first level of distribution''),
                    distributedTileSizes, interchange)
          else scanComputeOps k front ops (distributedTileSizes, interchange))"

definition getDistributionTileConfigFromLoweringConfig ::
  "nat \<Rightarrow> Operation list \<Rightarrow> fault + LogicalResult \<times> int64 list \<times> int64 list" where
  "getDistributionTileConfigFromLoweringConfig k computeOps =
     (case computeOps of
        [] \<Rightarrow> Inr (success, [], [])
      | front # _ \<Rightarrow> scanComputeOps k front computeOps ([], []))"

section \<open>Notions used in the statements\<close>

text \<open>
  An attribute is an integer when it is an \<open>IntegerAttr\<close> of any type, and a flat
  sequence of integers when it is an array whose elements all are.
\<close>

definition isInteger :: "Attribute \<Rightarrow> bool" where
  "isInteger a = (case a of IntegerAttr t v \<Rightarrow> True | _ \<Rightarrow> False)"

definition integerSequence :: "Attribute \<Rightarrow> bool" where
  "integerSequence a = (case a of ArrayAttr as \<Rightarrow> (\<forall>x\<in>set as. isInteger x) | _ \<Rightarrow> False)"

text \<open>
  What the specification says of the pipeline kinds: \<^verbatim>\<open>None\<close> is one of them and is the
  highest. \<open>gapEnum\<close> is an enumeration of that form whose values are not consecutive.
\<close>

definition wellFormedEnum :: "DispatchLoweringPassPipeline \<Rightarrow> bool" where
  "wellFormedEnum E =
     (enumNone E \<in> set (enumerators E) \<and> (\<forall>c\<in>set (enumerators E). c \<le> enumNone E))"

definition gapEnum :: DispatchLoweringPassPipeline where
  "gapEnum = \<lparr>enumerators = [0, 1, 255], enumNone = 255, stringifyEnum = (\<lambda>v. [])\<rparr>"

text \<open>A configuration with two levels of tile sizes, written out as attributes.\<close>

definition twoLevelConfig :: LoweringConfigAttr where
  "twoLevelConfig =
     \<lparr>tileSizes = Some [ArrayAttr [IntegerAttr IndexType 4, IntegerAttr (IntegerType 64) 8],
                        ArrayAttr [IntegerAttr (IntegerType 64) 2]],
      tileInterchange = None,
      nativeVectorSize = None\<rparr>"

text \<open>
  Operations for the scenarios: \<open>exampleOp\<close> has the partitionable-loops interface,
  which answers \<open>loops\<close> whatever the bound, and a lowering configuration built from the
  given tile sizes and interchange; \<open>plainOp\<close> has neither.
\<close>

definition exampleOp ::
  "nat \<Rightarrow> unsigned list \<Rightarrow> int64 list list \<Rightarrow> int64 list list \<Rightarrow> Operation" where
  "exampleOp i loops sizes interchange =
     \<lparr>opId = i,
      attrs = [kConfigAttrName \<mapsto> LoweringConfigA (LoweringConfigAttr_get sizes interchange [])],
      partitionableLoopsInterface = Some (\<lambda>n. loops)\<rparr>"

definition plainOp :: "nat \<Rightarrow> Operation" where
  "plainOp i = \<lparr>opId = i, attrs = Map.empty, partitionableLoopsInterface = None\<rparr>"

text \<open>The diagnostic of the resolver, attached to the operation \<open>front\<close>.\<close>

definition inconsistentDistribution :: "Operation \<Rightarrow> diagnostic" where
  "inconsistentDistribution front =
     EmitOpError (opId front)
       ''inconsistent distribution of ops for first level of distribution''"

text \<open>
  An operation contributes a non-empty array when it is skipped or its pair is computed
  without a fault and has tile sizes. The contributions of a sequence agree when any two
  of them are equal. Two operations are the same at level 0 when they have the same
  partitionable loops and both lack a lowering configuration or both have one, with the
  same tile sizes and interchange at level 0.
\<close>

definition contributesNonempty :: "nat \<Rightarrow> Operation \<Rightarrow> bool" where
  "contributesNonempty k op =
     (case currDistribution k op of
        None \<Rightarrow> True
      | Some (Inl f) \<Rightarrow> False
      | Some (Inr (d, ic)) \<Rightarrow> d \<noteq> [])"

definition agreeing :: "nat \<Rightarrow> Operation list \<Rightarrow> bool" where
  "agreeing k ops =
     (\<forall>a\<in>set ops. \<forall>b\<in>set ops.
        (case (currDistribution k a, currDistribution k b) of
           (Some (Inr p), Some (Inr q)) \<Rightarrow> p = q
         | _ \<Rightarrow> True))"

definition sameLevel0 :: "nat \<Rightarrow> Operation \<Rightarrow> Operation \<Rightarrow> bool" where
  "sameLevel0 k a b =
     (map_option (\<lambda>g. g k) (partitionableLoopsInterface a)
        = map_option (\<lambda>g. g k) (partitionableLoopsInterface b)
      \<and> (case (getLoweringConfig a, getLoweringConfig b) of
            (None, None) \<Rightarrow> True
          | (Some c, Some c') \<Rightarrow>
              getTileSizeVals c 0 = getTileSizeVals c' 0
              \<and> getTileInterchangeVals c 0 = getTileInterchangeVals c' 0
          | _ \<Rightarrow> False))"

section \<open>Properties\<close>

lemma castIntegerVals_encode: "castIntegerVals (map (IntegerAttr t) s) = Inr s"
  by (induction s) simp_all

text \<open>
  Claim C6. Decoding the attribute that encodes a sequence of 64-bit integers gives the
  sequence back, the empty one included, and decoding a null attribute gives the empty
  sequence, not an error.
\<close>

theorem codec_roundtrip:
  "getIntegerVals (Some (getI64IntegerArrayAttr s)) = Inr s \<and> getIntegerVals None = Inr []"
  by (simp add: getIntegerVals_def getI64IntegerArrayAttr_def castIntegerVals_encode)

lemma isInteger_iff: "isInteger a \<longleftrightarrow> (\<exists>t v. a = IntegerAttr t v)"
  by (cases a) (simp_all add: isInteger_def)

lemma integerSequence_iff:
  "integerSequence a \<longleftrightarrow> (\<exists>as. a = ArrayAttr as \<and> (\<forall>x\<in>set as. \<exists>t v. x = IntegerAttr t v))"
  by (cases a) (simp_all add: integerSequence_def isInteger_iff)

lemma isaIntegerAttr_iff: "isaIntegerAttr a \<longleftrightarrow> isInteger a"
  by (cases a) (simp_all add: isInteger_def)

lemma checkIntegerArrayAttr_iff: "checkIntegerArrayAttr as \<longleftrightarrow> (\<forall>x\<in>set as. isInteger x)"
  by (simp add: checkIntegerArrayAttr_def list_ex_iff isaIntegerAttr_iff)

lemma notIntegerArray_iff: "notIntegerArray a \<longleftrightarrow> \<not> integerSequence a"
  by (cases a) (simp_all add: integerSequence_def checkIntegerArrayAttr_iff)

lemma hasNonIntElems_iff: "hasNonIntElems as \<longleftrightarrow> (\<exists>a\<in>set as. \<not> integerSequence a)"
  by (simp add: hasNonIntElems_def list_ex_iff notIntegerArray_iff)

text \<open>
  Claim C4. The verifier of \<^verbatim>\<open>iree_codegen.lowering_config\<close> fails exactly when the
  tile sizes are absent, or a level of the tile sizes is not a flat sequence of integers,
  or the interchange is present and a level of it is not one, or the native vector size is
  present and holds a non-integer. Empty tile sizes are accepted.
\<close>

theorem LoweringConfig_verify_iff:
  "(LoweringConfigAttr_verify sizes interchange vectorSize \<noteq> success \<longleftrightarrow>
      sizes = None
      \<or> (\<exists>ls. sizes = Some ls \<and> (\<exists>a\<in>set ls. \<not> integerSequence a))
      \<or> (\<exists>ic. interchange = Some ic \<and> (\<exists>a\<in>set ic. \<not> integerSequence a))
      \<or> (\<exists>nv. vectorSize = Some nv \<and> (\<exists>x\<in>set nv. \<not> isInteger x)))
   \<and> LoweringConfigAttr_verify (Some []) None None = success"
  by (auto simp: LoweringConfigAttr_verify_def hasNonIntElems_iff checkIntegerArrayAttr_iff
      split: option.splits)

theorem LoweringConfig_verify_iff_witness:
  "LoweringConfigAttr_verify (Some [ArrayAttr [IntegerAttr IndexType 4], OtherAttr ''x'']) None None
     \<noteq> success
   \<and> LoweringConfigAttr_verify (Some [ArrayAttr [IntegerAttr IndexType 4]])
        (Some [ArrayAttr []]) (Some [IntegerAttr (IntegerType 64) 8]) = success"
proof -
  have bad: "\<not> integerSequence (OtherAttr ''x'')"
    by (simp add: integerSequence_def)
  have good: "integerSequence (ArrayAttr [IntegerAttr IndexType 4])" "integerSequence (ArrayAttr [])"
    "isInteger (IntegerAttr (IntegerType 64) 8)"
    by (simp_all add: integerSequence_def isInteger_def)
  show ?thesis
    using bad good
      LoweringConfig_verify_iff [of "Some [ArrayAttr [IntegerAttr IndexType 4], OtherAttr ''x'']" None None]
      LoweringConfig_verify_iff [of "Some [ArrayAttr [IntegerAttr IndexType 4]]"
        "Some [ArrayAttr []]" "Some [IntegerAttr (IntegerType 64) 8]"]
    by simp
qed

text \<open>
  Claim C5, as the code has it. The verifier of \<^verbatim>\<open>iree_codegen.translation_info\<close>
  fails when the pipeline is absent, fails when its value exceeds \<^verbatim>\<open>None\<close>, and
  succeeds on every other value: on every known kind, \<^verbatim>\<open>None\<close> included, and also on
  a value below \<^verbatim>\<open>None\<close> that is not a known kind.
\<close>

theorem TranslationInfo_verify_bound:
  "TranslationInfoAttr_verify E None workload
      = failure (EmitError ''missing pass pipeline specification'')
   \<and> (TranslationInfoAttr_verify E (Some v) workload = success \<longleftrightarrow> v \<le> enumNone E)
   \<and> (enumNone E < v \<longrightarrow>
        TranslationInfoAttr_verify E (Some v) workload
          = failure (EmitError (''invalid pass pipeline value : '' @ stringifyEnum E v)))
   \<and> (wellFormedEnum E \<longrightarrow> v \<in> set (enumerators E) \<longrightarrow>
        TranslationInfoAttr_verify E (Some v) workload = success)
   \<and> TranslationInfoAttr_verify E (Some (enumNone E)) workload = success"
  by (auto simp: TranslationInfoAttr_verify_def wellFormedEnum_def)

theorem TranslationInfo_verify_bound_witness:
  "TranslationInfoAttr_verify gapEnum (Some 256) None
      = failure (EmitError ''invalid pass pipeline value : '')
   \<and> TranslationInfoAttr_verify gapEnum (Some 1) None = success"
proof -
  have wf: "wellFormedEnum gapEnum" by (simp add: wellFormedEnum_def gapEnum_def)
  have m: "1 \<in> set (enumerators gapEnum)" "enumNone gapEnum < 256" "stringifyEnum gapEnum 256 = []"
    by (simp_all add: gapEnum_def)
  show ?thesis
    using wf m TranslationInfo_verify_bound [of gapEnum None 256]
      TranslationInfo_verify_bound [of gapEnum None 1]
    by simp
qed

text \<open>
  Claim C5 as stated asks for membership in the set of known kinds. The check of the code
  is the numeric bound: with the kinds 0, 1 and 255 (\<^verbatim>\<open>None\<close>), the value 7 passes.
\<close>

theorem TranslationInfo_verify_membership_counterexample:
  "wellFormedEnum gapEnum
   \<and> TranslationInfoAttr_verify gapEnum (Some 7) None = success
   \<and> 7 \<notin> set (enumerators gapEnum)"
  by (simp add: wellFormedEnum_def gapEnum_def TranslationInfoAttr_verify_def)

lemma castIntegerVals_pairs:
  "castIntegerVals (map (\<lambda>(t, v). IntegerAttr t v) tvs) = Inr (map snd tvs)"
  by (induction tvs) (simp_all split: prod.splits)

lemma castArrayIntegerVals_pairs:
  "castArrayIntegerVals (ArrayAttr (map (\<lambda>(t, v). IntegerAttr t v) tvs)) = Inr (map snd tvs)"
  by (simp add: getIntegerVals_def castIntegerVals_pairs)

text \<open>
  Claim C7. At a level that is not below the number of configured levels, or when the
  field is absent, \<open>getTileSizeVals\<close> and \<open>getTileInterchangeVals\<close> return the empty
  sequence and no fault. At a level in range whose entry is a sequence of integers they
  return the values of that entry.
\<close>

theorem level_accessors:
  "(tileSizes config = None \<or> (\<exists>ls. tileSizes config = Some ls \<and> length ls \<le> level)
      \<longrightarrow> getTileSizeVals config level = Inr [])
   \<and> (tileInterchange config = None
        \<or> (\<exists>ls. tileInterchange config = Some ls \<and> length ls \<le> level)
      \<longrightarrow> getTileInterchangeVals config level = Inr [])
   \<and> (\<forall>ls tvs. tileSizes config = Some ls \<and> level < length ls
          \<and> ls ! level = ArrayAttr (map (\<lambda>(t, v). IntegerAttr t v) tvs)
      \<longrightarrow> getTileSizeVals config level = Inr (map snd tvs))
   \<and> (\<forall>ls tvs. tileInterchange config = Some ls \<and> level < length ls
          \<and> ls ! level = ArrayAttr (map (\<lambda>(t, v). IntegerAttr t v) tvs)
      \<longrightarrow> getTileInterchangeVals config level = Inr (map snd tvs))"
  by (auto simp: getTileSizeVals_def getTileInterchangeVals_def getIntegerVals_def
      castIntegerVals_pairs)

theorem level_accessors_witness:
  "getTileSizeVals twoLevelConfig 2 = Inr []
   \<and> getTileInterchangeVals twoLevelConfig 0 = Inr []
   \<and> getTileSizeVals twoLevelConfig 0 = Inr [4, 8]"
proof -
  have e: "twoLevelConfig =
     \<lparr>tileSizes = Some [ArrayAttr (map (\<lambda>(t, v). IntegerAttr t v)
                                    [(IndexType, 4), (IntegerType 64, 8)]),
                        ArrayAttr [IntegerAttr (IntegerType 64) 2]],
      tileInterchange = None, nativeVectorSize = None\<rparr>"
    by (simp add: twoLevelConfig_def)
  have a: "getTileSizeVals twoLevelConfig 2 = Inr []"
    "getTileInterchangeVals twoLevelConfig 0 = Inr []"
    using level_accessors [of twoLevelConfig 2] level_accessors [of twoLevelConfig 0]
    by (simp_all add: twoLevelConfig_def)
  have b: "getTileSizeVals twoLevelConfig 0
             = Inr (map snd [(IndexType, 4::int64), (IntegerType 64, 8)])"
    using level_accessors [of twoLevelConfig 0] unfolding e
    by (simp del: list.map)
  from a b show ?thesis by simp
qed

lemma getIntegerVals_encode: "getIntegerVals (Some (getI64IntegerArrayAttr s)) = Inr s"
  by (simp add: getIntegerVals_def getI64IntegerArrayAttr_def castIntegerVals_encode)

lemma castArrayIntegerVals_attrList:
  "level < length lst \<Longrightarrow> castArrayIntegerVals (attrList lst ! level) = Inr (lst ! level)"
  by (simp add: attrList_def getIntegerVals_encode)

text \<open>
  Claim C10. Every builder of the three attributes stores each integer-sequence argument
  as a present attribute, the encoding of the argument, also when the argument is empty;
  the accessors of a built value therefore return the argument itself.
\<close>

theorem builders_encode_present:
  "workloadPerWorkgroup (TranslationInfoAttr_get pipeline workload)
      = Some (getI64IntegerArrayAttr workload)
   \<and> getWorkloadPerWorkgroupVals (TranslationInfoAttr_get pipeline workload) = Inr workload
   \<and> tileInterchange (LoweringConfigAttr_get sizes interchange vectorSize)
      = Some (attrList interchange)
   \<and> nativeVectorSize (LoweringConfigAttr_get sizes interchange vectorSize)
      = Some (getI64IntegerArrayAttr vectorSize)
   \<and> getNativeVectorSizeVals (LoweringConfigAttr_get sizes interchange vectorSize)
      = Inr vectorSize
   \<and> getTileInterchangeVals (LoweringConfigAttr_get sizes interchange vectorSize) level
      = Inr (if level < length interchange then interchange ! level else [])
   \<and> getTileSizeVals (LoweringConfigAttr_get sizes interchange vectorSize) level
      = Inr (if level < length sizes then sizes ! level else [])
   \<and> workgroupSize (CompilationInfoAttr_get E sizes interchange vectorSize wgSize)
      = Some (getI64IntegerArrayAttr wgSize)
   \<and> workgroupSize (CompilationInfoAttr_get_pipeline sizes interchange vectorSize
                       pipeline workload wgSize)
      = Some (getI64IntegerArrayAttr wgSize)
   \<and> workgroupSize (CompilationInfoAttr_get_attrs configAttr info wgSize)
      = Some (getI64IntegerArrayAttr wgSize)
   \<and> getWorkgroupSizeVals (CompilationInfoAttr_get E sizes interchange vectorSize wgSize)
      = Inr wgSize
   \<and> getWorkgroupSizeVals (CompilationInfoAttr_get_pipeline sizes interchange vectorSize
                              pipeline workload wgSize)
      = Inr wgSize
   \<and> getWorkgroupSizeVals (CompilationInfoAttr_get_attrs configAttr info wgSize) = Inr wgSize
   \<and> loweringConfig (CompilationInfoAttr_get E sizes interchange vectorSize wgSize)
      = Some (LoweringConfigAttr_get sizes interchange vectorSize)
   \<and> translationInfo (CompilationInfoAttr_get E sizes interchange vectorSize wgSize)
      = Some (TranslationInfoAttr_get (enumNone E) [])
   \<and> loweringConfig (CompilationInfoAttr_get_pipeline sizes interchange vectorSize
                        pipeline workload wgSize)
      = Some (LoweringConfigAttr_get sizes interchange vectorSize)
   \<and> translationInfo (CompilationInfoAttr_get_pipeline sizes interchange vectorSize
                         pipeline workload wgSize)
      = Some (TranslationInfoAttr_get pipeline workload)"
  by (simp add: TranslationInfoAttr_get_def LoweringConfigAttr_get_def
      CompilationInfoAttr_get_def CompilationInfoAttr_get_pipeline_def
      CompilationInfoAttr_get_attrs_def getWorkloadPerWorkgroupVals_def
      getNativeVectorSizeVals_def getTileInterchangeVals_def getTileSizeVals_def
      getWorkgroupSizeVals_def getIntegerVals_encode castArrayIntegerVals_attrList
      attrList_def)

theorem builders_encode_present_witness:
  "workgroupSize (CompilationInfoAttr_get gapEnum [[4, 4]] [] [] []) = Some []
   \<and> getWorkgroupSizeVals (CompilationInfoAttr_get gapEnum [[4, 4]] [] [] []) = Inr []
   \<and> getTileInterchangeVals (LoweringConfigAttr_get [[4, 4]] [] []) 0 = Inr []"
  using builders_encode_present [of 0 "[]" "[[4, 4]]" "[]" "[]" 0 gapEnum "[]" None None]
  by (simp add: getI64IntegerArrayAttr_def)

lemma getTileSizeVals_get:
  "getTileSizeVals (LoweringConfigAttr_get sizes interchange vectorSize) level
     = Inr (if level < length sizes then sizes ! level else [])"
  by (simp add: getTileSizeVals_def LoweringConfigAttr_get_def castArrayIntegerVals_attrList)
    (simp add: attrList_def)

lemma getTileInterchangeVals_get:
  "getTileInterchangeVals (LoweringConfigAttr_get sizes interchange vectorSize) level
     = Inr (if level < length interchange then interchange ! level else [])"
  by (simp add: getTileInterchangeVals_def LoweringConfigAttr_get_def
      castArrayIntegerVals_attrList) (simp add: attrList_def)

lemma currDistribution_exampleOp:
  "currDistribution k (exampleOp i loops sizes interchange) =
     Some (case currDistributedTileSizes loops (if 0 < length sizes then sizes ! 0 else []) of
             Inl f \<Rightarrow> Inl f
           | Inr d \<Rightarrow> Inr (d, if 0 < length interchange then interchange ! 0 else []))"
  by (simp add: currDistribution_def exampleOp_def getLoweringConfig_def
      getTileSizeVals_get getTileInterchangeVals_get)

lemma currDistribution_plainOp: "currDistribution k (plainOp i) = None"
  by (simp add: currDistribution_def plainOp_def)
lemma cd_44: "currDistribution k (exampleOp i [0, 1] [[4, 4]] []) = Some (Inr ([4, 4], []))"
  by (simp add: currDistribution_exampleOp currDistributedTileSizes_def)
    (simp add: numeral_2_eq_2)

lemma cd_48: "currDistribution k (exampleOp i [0, 1] [[4, 8]] []) = Some (Inr ([4, 8], []))"
  by (simp add: currDistribution_exampleOp currDistributedTileSizes_def)
    (simp add: numeral_2_eq_2)

lemma cd_none_10:
  "currDistribution k (exampleOp i [] [[4, 4]] [[1, 0]]) = Some (Inr ([], [1, 0]))"
  by (simp add: currDistribution_exampleOp currDistributedTileSizes_def)

lemma cd_none:
  "currDistribution k (exampleOp i [] [[4, 4]] []) = Some (Inr ([], []))"
  by (simp add: currDistribution_exampleOp currDistributedTileSizes_def)

lemma cd_44_01:
  "currDistribution k (exampleOp i [0, 1] [[4, 4]] [[0, 1]]) = Some (Inr ([4, 4], [0, 1]))"
  by (simp add: currDistribution_exampleOp currDistributedTileSizes_def)
    (simp add: numeral_2_eq_2)
lemma scanComputeOps_skipped:
  "\<forall>op\<in>set ops. currDistribution k op = None \<Longrightarrow>
   scanComputeOps k front ops (d, ic) = Inr (success, d, ic)"
  by (induction ops) simp_all

lemma currDistribution_None_iff:
  "currDistribution k op = None \<longleftrightarrow>
     partitionableLoopsInterface op = None \<or> getLoweringConfig op = None"
  by (simp add: currDistribution_def split: option.splits)

text \<open>
  Claim C8. The resolver returns the empty plan and no error on the empty sequence, and on
  every sequence in which no operation has both the partitionable-loops interface and a
  lowering configuration.
\<close>

theorem no_contribution_empty_plan:
  "getDistributionTileConfigFromLoweringConfig k [] = Inr (success, [], [])
   \<and> ((\<forall>op\<in>set computeOps.
          partitionableLoopsInterface op = None \<or> getLoweringConfig op = None)
       \<longrightarrow> getDistributionTileConfigFromLoweringConfig k computeOps = Inr (success, [], []))"
proof (intro conjI impI)
  show "getDistributionTileConfigFromLoweringConfig k [] = Inr (success, [], [])"
    by (simp add: getDistributionTileConfigFromLoweringConfig_def)
next
  assume "\<forall>op\<in>set computeOps.
            partitionableLoopsInterface op = None \<or> getLoweringConfig op = None"
  then have "\<forall>op\<in>set computeOps. currDistribution k op = None"
    by (simp add: currDistribution_None_iff)
  then have "scanComputeOps k front computeOps ([], []) = Inr (success, [], [])" for front
    by (rule scanComputeOps_skipped)
  then show "getDistributionTileConfigFromLoweringConfig k computeOps = Inr (success, [], [])"
    by (cases computeOps)
      (simp_all add: getDistributionTileConfigFromLoweringConfig_def
         del: scanComputeOps.simps)
qed

theorem no_contribution_empty_plan_witness:
  "getDistributionTileConfigFromLoweringConfig 3 [plainOp 1, plainOp 2]
     = Inr (success, [], [])"
proof -
  have "\<forall>op\<in>set [plainOp 1, plainOp 2].
          partitionableLoopsInterface op = None \<or> getLoweringConfig op = None"
    by (simp add: plainOp_def)
  then show ?thesis
    using no_contribution_empty_plan [of 3 "[plainOp 1, plainOp 2]"] by blast
qed

lemma scanComputeOps_append:
  "scanComputeOps k front (xs @ ys) acc =
     (case scanComputeOps k front xs acc of
        Inl f \<Rightarrow> Inl f
      | Inr (success, acc') \<Rightarrow> scanComputeOps k front ys acc'
      | Inr (failure d, acc') \<Rightarrow> Inr (failure d, acc'))"
proof (induction xs arbitrary: acc)
  case Nil
  show ?case by (cases acc) simp
next
  case (Cons x xs)
  obtain d ic where acc: "acc = (d, ic)" by (cases acc)
  show ?case
    unfolding acc
    by (simp add: Cons.IH split: option.splits sum.splits prod.splits)
qed
lemma scanComputeOps_Cons:
  "scanComputeOps k front (op # ops) (d, ic) =
     (case currDistribution k op of
        None \<Rightarrow> scanComputeOps k front ops (d, ic)
      | Some (Inl f) \<Rightarrow> Inl f
      | Some (Inr (d', ic')) \<Rightarrow>
          if d = [] then scanComputeOps k front ops (d', ic')
          else if d' \<noteq> d \<or> ic' \<noteq> ic
          then Inr (failure (inconsistentDistribution front), d, ic)
          else scanComputeOps k front ops (d, ic))"
  by (simp add: inconsistentDistribution_def split: option.splits sum.splits prod.splits)

lemma getDistributionTileConfig_Cons:
  "getDistributionTileConfigFromLoweringConfig k (op # ops)
     = scanComputeOps k op (op # ops) ([], [])"
  by (simp add: getDistributionTileConfigFromLoweringConfig_def)

text \<open>
  Claim C1, as the code has it. When the scan reaches an operation that contributes a pair
  different from the accumulated one, and the accumulated tile sizes are not empty, the
  resolver fails with the diagnostic attached to the first operation of the sequence, not
  to the one that differs. So it does on the operations with tile sizes 4, 4 and 4, 8.
\<close>

theorem mismatch_fails_at_front:
  "(i < length computeOps
     \<and> scanComputeOps k (hd computeOps) (take i computeOps) ([], []) = Inr (success, d, ic)
     \<and> currDistribution k (computeOps ! i) = Some (Inr (d', ic'))
     \<and> d \<noteq> [] \<and> (d', ic') \<noteq> (d, ic)
    \<longrightarrow> getDistributionTileConfigFromLoweringConfig k computeOps
          = Inr (failure (inconsistentDistribution (hd computeOps)), d, ic))
   \<and> getDistributionTileConfigFromLoweringConfig k
        [exampleOp 1 [0, 1] [[4, 4]] [], exampleOp 2 [0, 1] [[4, 8]] []]
      = Inr (failure (inconsistentDistribution (exampleOp 1 [0, 1] [[4, 4]] [])), [4, 4], [])"
proof (intro conjI impI)
  assume a: "i < length computeOps
     \<and> scanComputeOps k (hd computeOps) (take i computeOps) ([], []) = Inr (success, d, ic)
     \<and> currDistribution k (computeOps ! i) = Some (Inr (d', ic'))
     \<and> d \<noteq> [] \<and> (d', ic') \<noteq> (d, ic)"
  then have split: "computeOps = take i computeOps @ computeOps ! i # drop (Suc i) computeOps"
    by (simp add: id_take_nth_drop)
  from a obtain front rest where co: "computeOps = front # rest"
    by (cases computeOps) auto
  have "scanComputeOps k (hd computeOps) computeOps ([], [])
          = scanComputeOps k (hd computeOps)
              (take i computeOps @ computeOps ! i # drop (Suc i) computeOps) ([], [])"
    using split by simp
  also have "\<dots> = scanComputeOps k (hd computeOps)
                      (computeOps ! i # drop (Suc i) computeOps) (d, ic)"
    using a by (simp add: scanComputeOps_append del: scanComputeOps.simps)
  also have "\<dots> = Inr (failure (inconsistentDistribution (hd computeOps)), d, ic)"
    using a by (auto simp add: scanComputeOps_Cons simp del: scanComputeOps.simps)
  finally show "getDistributionTileConfigFromLoweringConfig k computeOps
          = Inr (failure (inconsistentDistribution (hd computeOps)), d, ic)"
    by (simp add: co getDistributionTileConfig_Cons del: scanComputeOps.simps)
next
  show "getDistributionTileConfigFromLoweringConfig k
        [exampleOp 1 [0, 1] [[4, 4]] [], exampleOp 2 [0, 1] [[4, 8]] []]
      = Inr (failure (inconsistentDistribution (exampleOp 1 [0, 1] [[4, 4]] [])), [4, 4], [])"
    by (simp add: getDistributionTileConfig_Cons scanComputeOps_Cons cd_44 cd_48
        del: scanComputeOps.simps)
qed

theorem mismatch_fails_at_front_witness:
  "getDistributionTileConfigFromLoweringConfig 3
     [plainOp 7, exampleOp 1 [0, 1] [[4, 4]] [], exampleOp 2 [0, 1] [[4, 8]] []]
   = Inr (failure (EmitOpError 7
            ''inconsistent distribution of ops for first level of distribution''),
          [4, 4], [])"
proof -
  let ?ops = "[plainOp 7, exampleOp 1 [0, 1] [[4, 4]] [], exampleOp 2 [0, 1] [[4, 8]] []]"
  have 1: "(2::nat) < length ?ops" by simp
  have 2: "scanComputeOps 3 (hd ?ops) (take 2 ?ops) ([], []) = Inr (success, [4, 4], [])"
    by (simp add: numeral_2_eq_2 scanComputeOps_Cons currDistribution_plainOp cd_44
        del: scanComputeOps.simps(2))
  have 3: "currDistribution 3 (?ops ! 2) = Some (Inr ([4, 8], []))"
    by (simp add: numeral_2_eq_2 cd_48)
  have 4: "[4, 4] \<noteq> ([] :: int64 list)" "([4, 8], []) \<noteq> ([4, 4] :: int64 list, [] :: int64 list)"
    by simp_all
  have "getDistributionTileConfigFromLoweringConfig 3 ?ops
          = Inr (failure (inconsistentDistribution (hd ?ops)), [4, 4], [])"
    using mismatch_fails_at_front [of 2 ?ops 3 "[4, 4]" "[]" "[4, 8]" "[]"] 1 2 3 4
    by blast
  then show ?thesis
    by (simp add: inconsistentDistribution_def plainOp_def)
qed

text \<open>
  Claim C1 as stated fails when the accumulated tile sizes are empty: the code takes the
  accumulator as unset then and adopts the next pair. The first operation here has no
  partitionable loop and the interchange 1, 0; the second differs in both components.
\<close>

theorem mismatch_after_empty_adoption_counterexample:
  "scanComputeOps 3 (exampleOp 1 [] [[4, 4]] [[1, 0]])
      (take 1 [exampleOp 1 [] [[4, 4]] [[1, 0]], exampleOp 2 [0, 1] [[4, 4]] [[0, 1]]])
      ([], [])
     = Inr (success, [], [1, 0])
   \<and> currDistribution 3 (exampleOp 2 [0, 1] [[4, 4]] [[0, 1]]) = Some (Inr ([4, 4], [0, 1]))
   \<and> ([4, 4], [0, 1]) \<noteq> ([] :: int64 list, [1, 0] :: int64 list)
   \<and> getDistributionTileConfigFromLoweringConfig 3
        [exampleOp 1 [] [[4, 4]] [[1, 0]], exampleOp 2 [0, 1] [[4, 4]] [[0, 1]]]
      = Inr (success, [4, 4], [0, 1])"
  by (simp add: getDistributionTileConfig_Cons scanComputeOps_Cons cd_none_10 cd_44_01
      del: scanComputeOps.simps(2))

lemma fillDistributedTileSizes_spec:
  assumes "\<forall>l\<in>set loops. unat l < length cur"
  shows "\<exists>d. fillDistributedTileSizes loops sizes cur = Inr d \<and> length d = length cur \<and>
           (\<forall>i<length cur. d ! i =
              (if (\<exists>l\<in>set loops. unat l = i) \<and> i < length sizes then sizes ! i else cur ! i))"
  using assms
proof (induction loops arbitrary: cur)
  case Nil
  show ?case by simp
next
  case (Cons l ls)
  show ?case
  proof (cases "unat l < length sizes")
    case True
    let ?cur = "cur[unat l := sizes ! unat l]"
    from Cons.prems have "\<forall>l\<in>set ls. unat l < length ?cur" by simp
    from Cons.IH [OF this] obtain d where
      d: "fillDistributedTileSizes ls sizes ?cur = Inr d" "length d = length cur"
      "\<forall>i<length cur. d ! i =
         (if (\<exists>l\<in>set ls. unat l = i) \<and> i < length sizes then sizes ! i else ?cur ! i)"
      by auto
    from Cons.prems have lt: "unat l < length cur" by simp
    have "fillDistributedTileSizes (l # ls) sizes cur = Inr d"
      using True lt d(1) by simp
    moreover have "d ! i =
        (if (\<exists>l\<in>set (l # ls). unat l = i) \<and> i < length sizes then sizes ! i else cur ! i)"
      if "i < length cur" for i
      using d(3) that True by (auto simp: nth_list_update)
    ultimately show ?thesis using d(2) by blast
  next
    case False
    from Cons.prems have "\<forall>l\<in>set ls. unat l < length cur" by simp
    from Cons.IH [OF this] obtain d where
      d: "fillDistributedTileSizes ls sizes cur = Inr d" "length d = length cur"
      "\<forall>i<length cur. d ! i =
         (if (\<exists>l\<in>set ls. unat l = i) \<and> i < length sizes then sizes ! i else cur ! i)"
      by auto
    have "fillDistributedTileSizes (l # ls) sizes cur = Inr d"
      using False d(1) by simp
    moreover have "d ! i =
        (if (\<exists>l\<in>set (l # ls). unat l = i) \<and> i < length sizes then sizes ! i else cur ! i)"
      if "i < length cur" for i
      using d(3) that False by auto
    ultimately show ?thesis using d(2) by blast
  qed
qed

lemma sorted_le_last: "sorted xs \<Longrightarrow> x \<in> set xs \<Longrightarrow> x \<le> last xs"
  for xs :: "unsigned list"
  by (induction xs) auto

lemma sorted_Max_last:
  fixes loops :: "unsigned list"
  assumes "sorted loops" "loops \<noteq> []"
  shows "Max (set loops) = last loops"
  using assms by (intro Max_eqI) (auto simp: sorted_le_last)

lemma currDistributedTileSizes_spec:
  assumes "sorted loops" "loops \<noteq> []" "unat (Max (set loops)) + 1 < 2 ^ 32"
  shows "\<exists>d. currDistributedTileSizes loops sizes = Inr d
           \<and> length d = unat (Max (set loops)) + 1
           \<and> (\<forall>i<length d. d ! i =
                (if (\<exists>l\<in>set loops. unat l = i) \<and> i < length sizes then sizes ! i else 0))"
proof -
  have m: "Max (set loops) = last loops" using assms(1,2) by (rule sorted_Max_last)
  have n: "unat (last loops + 1) = unat (last loops) + 1"
    using assms(3) unfolding m by (simp add: unat_word_ariths)
  let ?cur = "replicate (unat (last loops + 1)) (0 :: int64)"
  have "\<forall>l\<in>set loops. unat l < length ?cur"
  proof
    fix l assume "l \<in> set loops"
    with assms(1) have "l \<le> last loops" by (simp add: sorted_le_last)
    then have "unat l \<le> unat (last loops)" by (simp add: word_le_nat_alt)
    then show "unat l < length ?cur" by (simp add: n)
  qed
  from fillDistributedTileSizes_spec [OF this, of sizes] obtain d where
    d: "fillDistributedTileSizes loops sizes ?cur = Inr d" "length d = length ?cur"
    "\<forall>i<length ?cur. d ! i =
       (if (\<exists>l\<in>set loops. unat l = i) \<and> i < length sizes then sizes ! i else ?cur ! i)"
    by blast
  have "currDistributedTileSizes loops sizes = Inr d"
    using d(1) assms(2) by (simp add: currDistributedTileSizes_def)
  moreover have "length d = unat (Max (set loops)) + 1"
    using d(2) by (simp add: m n)
  moreover have "\<forall>i<length d. d ! i =
       (if (\<exists>l\<in>set loops. unat l = i) \<and> i < length sizes then sizes ! i else 0)"
    using d(2,3) by auto
  ultimately show ?thesis by blast
qed

lemma fillDistributedTileSizes_length:
  "fillDistributedTileSizes loops sizes cur = Inr d \<Longrightarrow> length d = length cur"
  by (induction loops arbitrary: cur) (auto split: if_splits)

lemma currDistributedTileSizes_length:
  "loops \<noteq> [] \<Longrightarrow> currDistributedTileSizes loops sizes = Inr d \<Longrightarrow>
   length d = unat (last loops + 1)"
  by (auto simp: currDistributedTileSizes_def dest: fillDistributedTileSizes_length)

text \<open>
  Claim C2, as the code has it. The array of an operation with the interface and a
  lowering configuration is sized by the last partitionable loop, not by the largest: its
  length is the last loop id plus one, in unsigned arithmetic. When the partitionable
  loops are in ascending order and that sum does not wrap around, the length is the
  largest partitionable loop plus one, and the array holds the level-0 tile size at every
  partitionable loop that has one and 0 elsewhere; without a partitionable loop the array
  is empty. Two operations with tile sizes 4, 4 and partitionable loops 0, 1 resolve to
  the tile sizes 4, 4 and the empty interchange.
\<close>

theorem per_node_array:
  "(partitionableLoopsInterface op = Some g \<and> getLoweringConfig op = Some config
      \<and> getTileSizeVals config 0 = Inr sizes \<and> getTileInterchangeVals config 0 = Inr ic
      \<and> g k \<noteq> [] \<and> sorted (g k) \<and> unat (Max (set (g k))) + 1 < 2 ^ 32
    \<longrightarrow> (\<exists>d. currDistribution k op = Some (Inr (d, ic))
            \<and> length d = unat (Max (set (g k))) + 1
            \<and> (\<forall>i<length d. d ! i =
                  (if (\<exists>l\<in>set (g k). unat l = i) \<and> i < length sizes
                   then sizes ! i else 0))))
   \<and> (partitionableLoopsInterface op = Some g \<and> getLoweringConfig op = Some config
      \<and> getTileSizeVals config 0 = Inr sizes \<and> getTileInterchangeVals config 0 = Inr ic
      \<and> g k = []
    \<longrightarrow> currDistribution k op = Some (Inr ([], ic)))
   \<and> (partitionableLoopsInterface op = Some g \<and> g k \<noteq> []
      \<and> currDistribution k op = Some (Inr (dl, icl))
    \<longrightarrow> length dl = unat (last (g k) + 1))
   \<and> getDistributionTileConfigFromLoweringConfig k
        [exampleOp 1 [0, 1] [[4, 4]] [], exampleOp 2 [0, 1] [[4, 4]] []]
      = Inr (success, [4, 4], [])"
proof (intro conjI impI)
  assume a: "partitionableLoopsInterface op = Some g \<and> getLoweringConfig op = Some config
      \<and> getTileSizeVals config 0 = Inr sizes \<and> getTileInterchangeVals config 0 = Inr ic
      \<and> g k \<noteq> [] \<and> sorted (g k) \<and> unat (Max (set (g k))) + 1 < 2 ^ 32"
  then have "\<exists>d. currDistributedTileSizes (g k) sizes = Inr d
           \<and> length d = unat (Max (set (g k))) + 1
           \<and> (\<forall>i<length d. d ! i =
                (if (\<exists>l\<in>set (g k). unat l = i) \<and> i < length sizes then sizes ! i else 0))"
    by (intro currDistributedTileSizes_spec) simp_all
  then obtain d where d: "currDistributedTileSizes (g k) sizes = Inr d"
    "length d = unat (Max (set (g k))) + 1"
    "\<forall>i<length d. d ! i =
        (if (\<exists>l\<in>set (g k). unat l = i) \<and> i < length sizes then sizes ! i else 0)"
    by blast
  have "currDistribution k op = Some (Inr (d, ic))"
    using a d(1) by (simp add: currDistribution_def)
  with d(2,3) show "\<exists>d. currDistribution k op = Some (Inr (d, ic))
            \<and> length d = unat (Max (set (g k))) + 1
            \<and> (\<forall>i<length d. d ! i =
                  (if (\<exists>l\<in>set (g k). unat l = i) \<and> i < length sizes
                   then sizes ! i else 0))"
    by blast
next
  assume "partitionableLoopsInterface op = Some g \<and> getLoweringConfig op = Some config
      \<and> getTileSizeVals config 0 = Inr sizes \<and> getTileInterchangeVals config 0 = Inr ic
      \<and> g k = []"
  then show "currDistribution k op = Some (Inr ([], ic))"
    by (simp add: currDistribution_def currDistributedTileSizes_def)
next
  assume b: "partitionableLoopsInterface op = Some g \<and> g k \<noteq> []
      \<and> currDistribution k op = Some (Inr (dl, icl))"
  then obtain sz where "currDistributedTileSizes (g k) sz = Inr dl"
    by (auto simp: currDistribution_def split: option.splits sum.splits)
  with b show "length dl = unat (last (g k) + 1)"
    by (simp add: currDistributedTileSizes_length)
next
  show "getDistributionTileConfigFromLoweringConfig k
        [exampleOp 1 [0, 1] [[4, 4]] [], exampleOp 2 [0, 1] [[4, 4]] []]
      = Inr (success, [4, 4], [])"
    by (simp add: getDistributionTileConfig_Cons scanComputeOps_Cons cd_44
        del: scanComputeOps.simps(2))
qed

theorem per_node_array_witness:
  "\<exists>d. currDistribution 3 (exampleOp 1 [0, 1] [[4, 8, 16]] []) = Some (Inr (d, []))
       \<and> length d = 2 \<and> d ! 0 = 4 \<and> d ! 1 = 8"
proof -
  let ?op = "exampleOp 1 [0, 1] [[4, 8, 16]] []"
  let ?g = "\<lambda>n::nat. [0, 1 :: unsigned]"
  let ?config = "LoweringConfigAttr_get [[4, 8, 16]] [] []"
  have m: "Max (set (?g 3)) = 1" by simp
  have h: "partitionableLoopsInterface ?op = Some ?g \<and> getLoweringConfig ?op = Some ?config
      \<and> getTileSizeVals ?config 0 = Inr [4, 8, 16] \<and> getTileInterchangeVals ?config 0 = Inr []
      \<and> ?g 3 \<noteq> [] \<and> sorted (?g 3) \<and> unat (Max (set (?g 3))) + 1 < 2 ^ 32"
    unfolding m
    by (simp add: exampleOp_def getLoweringConfig_def getTileSizeVals_get
        getTileInterchangeVals_get)
  from per_node_array [of ?op ?g ?config "[4, 8, 16]" "[]" 3] h
  obtain d where d: "currDistribution 3 ?op = Some (Inr (d, []))"
    "length d = unat (Max (set (?g 3))) + 1"
    "\<forall>i<length d. d ! i =
        (if (\<exists>l\<in>set (?g 3). unat l = i) \<and> i < length [4, 8, 16 :: int64]
         then [4, 8, 16] ! i else 0)"
    by blast
  from d(2) have len: "length d = 2" unfolding m by simp
  from d(3) len have "d ! 0 = 4" "d ! 1 = 8" by simp_all
  with d(1) len show ?thesis by blast
qed

text \<open>
  Claim C2 as stated sizes the array by the largest partitionable loop. The code takes the
  last one: for the loops 2, 0 and the tile size 4 the array has length 1, not 3, and for
  the loops 1, 0 with tile sizes 4, 4 the write at index 1 is past the end of an array of
  length 1.
\<close>

theorem unordered_loops_counterexample:
  "currDistribution 3 (exampleOp 1 [2, 0] [[4]] []) = Some (Inr ([4], []))
   \<and> length ([4] :: int64 list) \<noteq> unat (Max (set [2, 0 :: unsigned])) + 1
   \<and> currDistribution 3 (exampleOp 1 [1, 0] [[4, 4]] []) = Some (Inl IndexOutOfRange)"
  by (simp add: currDistribution_exampleOp currDistributedTileSizes_def)

lemma agreeing_iff:
  "agreeing k ops \<longleftrightarrow>
     (\<forall>a\<in>set ops. \<forall>b\<in>set ops. \<forall>p q.
        currDistribution k a = Some (Inr p) \<and> currDistribution k b = Some (Inr q) \<longrightarrow> p = q)"
  unfolding agreeing_def
  by (intro ball_cong refl) (auto split: option.splits sum.splits)

lemma contributesNonempty_cases:
  assumes "contributesNonempty k op"
  obtains (skipped) "currDistribution k op = None"
  | (pair) d ic where "currDistribution k op = Some (Inr (d, ic))" "d \<noteq> []"
  using assms
  by (auto simp: contributesNonempty_def split: option.splits sum.splits prod.splits)

lemma scanComputeOps_set:
  assumes "d \<noteq> []" and "\<forall>op\<in>set ops. contributesNonempty k op"
  shows "scanComputeOps k front ops (d, ic) =
     (if \<forall>op\<in>set ops. \<forall>p. currDistribution k op = Some (Inr p) \<longrightarrow> p = (d, ic)
      then Inr (success, d, ic)
      else Inr (failure (inconsistentDistribution front), d, ic))"
  using assms(2)
proof (induction ops)
  case Nil
  show ?case by simp
next
  case (Cons op ops)
  then have c: "contributesNonempty k op" and rest: "\<forall>op\<in>set ops. contributesNonempty k op"
    by simp_all
  note IH = Cons.IH [OF rest]
  from c show ?case
  proof (cases rule: contributesNonempty_cases)
    case skipped
    then show ?thesis
      using IH by (simp add: scanComputeOps_Cons del: scanComputeOps.simps)
  next
    case (pair d' ic')
    then show ?thesis
      using IH \<open>d \<noteq> []\<close>
      by (auto simp add: scanComputeOps_Cons simp del: scanComputeOps.simps)
  qed
qed

lemma scanComputeOps_unset:
  assumes "\<forall>op\<in>set ops. contributesNonempty k op"
  shows "\<exists>acc. scanComputeOps k front ops ([], ic) =
     Inr (if agreeing k ops then success else failure (inconsistentDistribution front), acc)"
  using assms
proof (induction ops)
  case Nil
  show ?case by (simp add: agreeing_iff)
next
  case (Cons op ops)
  then have c: "contributesNonempty k op" and rest: "\<forall>op\<in>set ops. contributesNonempty k op"
    by simp_all
  from c show ?case
  proof (cases rule: contributesNonempty_cases)
    case skipped
    then have "agreeing k (op # ops) = agreeing k ops"
      by (auto simp: agreeing_iff)
    then show ?thesis
      using Cons.IH [OF rest] skipped
      by (simp add: scanComputeOps_Cons del: scanComputeOps.simps)
  next
    case (pair d' ic')
    have "agreeing k (op # ops) \<longleftrightarrow>
            (\<forall>b\<in>set ops. \<forall>p. currDistribution k b = Some (Inr p) \<longrightarrow> p = (d', ic'))"
      using pair(1) unfolding agreeing_iff by (auto; metis)
    then show ?thesis
      using pair scanComputeOps_set [OF pair(2) rest, of front ic']
      by (simp add: scanComputeOps_Cons del: scanComputeOps.simps)
  qed
qed

text \<open>
  Claim C3, as the code has it. When every operation of the sequence that contributes
  does so without a fault and with a non-empty array of tile sizes, a failure of the
  resolver is kept by every permutation, with the diagnostic attached to the operation
  that is first in the permutation.
\<close>

theorem permutation_keeps_failure:
  assumes "mset ops' = mset ops"
    and "\<forall>op\<in>set ops. contributesNonempty k op"
    and "getDistributionTileConfigFromLoweringConfig k ops = Inr (failure diag, acc)"
  shows "\<exists>acc'. getDistributionTileConfigFromLoweringConfig k ops'
           = Inr (failure (inconsistentDistribution (hd ops')), acc')"
proof -
  from assms(1) have s: "set ops' = set ops" by (rule mset_eq_setD)
  have ne: "ops \<noteq> []"
    using assms(3) by (auto simp: getDistributionTileConfigFromLoweringConfig_def)
  with assms(1) have ne': "ops' \<noteq> []" by auto
  from ne obtain a as where ops: "ops = a # as" by (cases ops) auto
  from ne' obtain b bs where ops': "ops' = b # bs" by (cases ops') auto
  obtain r where "scanComputeOps k a ops ([], []) =
      Inr (if agreeing k ops then success else failure (inconsistentDistribution a), r)"
    using scanComputeOps_unset [OF assms(2), of a "[]"] by blast
  with assms(3) have "\<not> agreeing k ops"
    by (auto simp: ops getDistributionTileConfig_Cons simp del: scanComputeOps.simps
        split: if_splits)
  with s have na: "\<not> agreeing k ops'" by (simp add: agreeing_iff)
  from s assms(2) have "\<forall>op\<in>set ops'. contributesNonempty k op" by simp
  from scanComputeOps_unset [OF this, of b "[]"] na
  show ?thesis
    by (simp add: ops' getDistributionTileConfig_Cons del: scanComputeOps.simps)
qed

theorem permutation_keeps_failure_witness:
  "\<exists>acc'. getDistributionTileConfigFromLoweringConfig 3
      [exampleOp 2 [0, 1] [[4, 8]] [], plainOp 7, exampleOp 1 [0, 1] [[4, 4]] []]
     = Inr (failure (EmitOpError 2
              ''inconsistent distribution of ops for first level of distribution''), acc')"
proof -
  let ?ops = "[plainOp 7, exampleOp 1 [0, 1] [[4, 4]] [], exampleOp 2 [0, 1] [[4, 8]] []]"
  let ?ops' = "[exampleOp 2 [0, 1] [[4, 8]] [], plainOp 7, exampleOp 1 [0, 1] [[4, 4]] []]"
  have 1: "mset ?ops' = mset ?ops" by simp
  have 2: "\<forall>op\<in>set ?ops. contributesNonempty 3 op"
    by (simp add: contributesNonempty_def currDistribution_plainOp cd_44 cd_48)
  have 3: "getDistributionTileConfigFromLoweringConfig 3 ?ops
             = Inr (failure (inconsistentDistribution (plainOp 7)), [4, 4], [])"
    by (simp add: getDistributionTileConfig_Cons scanComputeOps_Cons
        currDistribution_plainOp cd_44 cd_48 del: scanComputeOps.simps(2))
  from permutation_keeps_failure [OF 1 2 3]
  show ?thesis by (simp add: inconsistentDistribution_def exampleOp_def)
qed

text \<open>
  Claim C3 as stated fails on an operation without partitionable loops: after the
  operation with tile sizes 4, 4 its empty array is a mismatch, before it the empty array
  leaves the accumulator unset and the scan succeeds.
\<close>

theorem permutation_loses_failure_counterexample:
  "getDistributionTileConfigFromLoweringConfig 3
      [exampleOp 1 [0, 1] [[4, 4]] [], exampleOp 2 [] [[4, 4]] []]
     = Inr (failure (inconsistentDistribution (exampleOp 1 [0, 1] [[4, 4]] [])), [4, 4], [])
   \<and> mset [exampleOp 2 [] [[4, 4]] [], exampleOp 1 [0, 1] [[4, 4]] []]
     = mset [exampleOp 1 [0, 1] [[4, 4]] [], exampleOp 2 [] [[4, 4]] []]
   \<and> getDistributionTileConfigFromLoweringConfig 3
      [exampleOp 2 [] [[4, 4]] [], exampleOp 1 [0, 1] [[4, 4]] []]
     = Inr (success, [4, 4], [])"
  by (simp add: getDistributionTileConfig_Cons scanComputeOps_Cons cd_44 cd_none
      del: scanComputeOps.simps(2))

lemma sameLevel0_currDistribution:
  "sameLevel0 k a b \<Longrightarrow> currDistribution k a = currDistribution k b"
  by (cases "partitionableLoopsInterface a"; cases "partitionableLoopsInterface b";
      cases "getLoweringConfig a"; cases "getLoweringConfig b")
    (simp_all add: sameLevel0_def currDistribution_def split: sum.splits)

lemma scanComputeOps_failure_diag:
  "scanComputeOps k front ops acc = Inr (failure d, r) \<Longrightarrow> d = inconsistentDistribution front"
proof (induction ops arbitrary: acc)
  case Nil
  then show ?case by (cases acc) simp
next
  case (Cons op ops)
  obtain dts ic where acc: "acc = (dts, ic)" by (cases acc)
  from Cons.prems show ?case
    unfolding acc
    by (auto simp add: scanComputeOps_Cons simp del: scanComputeOps.simps
        split: option.splits sum.splits prod.splits if_splits dest: Cons.IH)
qed

lemma scanComputeOps_sameLevel0:
  "list_all2 (sameLevel0 k) ops ops' \<Longrightarrow>
   scanComputeOps k front' ops' acc =
     (case scanComputeOps k front ops acc of
        Inr (failure d, r) \<Rightarrow> Inr (failure (inconsistentDistribution front'), r)
      | res \<Rightarrow> res)"
proof (induction ops ops' arbitrary: acc rule: list_all2_induct)
  case Nil
  show ?case by (cases acc) simp
next
  case (Cons a as b bs)
  obtain dts ic where acc: "acc = (dts, ic)" by (cases acc)
  have e: "currDistribution k b = currDistribution k a"
    using Cons.hyps(1) by (simp add: sameLevel0_currDistribution)
  show ?case
    unfolding acc
    by (simp add: scanComputeOps_Cons e Cons.IH del: scanComputeOps.simps
        split: option.splits sum.splits prod.splits)
qed

text \<open>
  Claim C9. Two sequences of operations that are pairwise the same at level 0, whatever
  their tile sizes and interchange at the other levels and their native vector sizes, get
  the same result from the resolver: the same plan, the same fault, or a failure with the
  same output vectors, attached to the first operation of each sequence; literally the
  same result when the first operations are the same operation.
\<close>

theorem level0_determines_result:
  assumes "list_all2 (sameLevel0 k) ops ops'"
  shows "getDistributionTileConfigFromLoweringConfig k ops' =
           (case getDistributionTileConfigFromLoweringConfig k ops of
              Inr (failure d, r) \<Rightarrow> Inr (failure (inconsistentDistribution (hd ops')), r)
            | res \<Rightarrow> res)
         \<and> (\<forall>d r. getDistributionTileConfigFromLoweringConfig k ops = Inr (failure d, r)
               \<longrightarrow> d = inconsistentDistribution (hd ops))
         \<and> (opId (hd ops) = opId (hd ops') \<longrightarrow>
              getDistributionTileConfigFromLoweringConfig k ops'
                = getDistributionTileConfigFromLoweringConfig k ops)"
proof -
  have diag: "d = inconsistentDistribution (hd ops)"
    if "getDistributionTileConfigFromLoweringConfig k ops = Inr (failure d, r)" for d r
    using that
    by (cases ops)
      (auto simp add: getDistributionTileConfigFromLoweringConfig_def
         simp del: scanComputeOps.simps dest: scanComputeOps_failure_diag)
  have main: "getDistributionTileConfigFromLoweringConfig k ops' =
           (case getDistributionTileConfigFromLoweringConfig k ops of
              Inr (failure d, r) \<Rightarrow> Inr (failure (inconsistentDistribution (hd ops')), r)
            | res \<Rightarrow> res)"
  proof (cases ops)
    case Nil
    with assms show ?thesis
      by (simp add: getDistributionTileConfigFromLoweringConfig_def)
  next
    case (Cons a as)
    with assms obtain b bs where ops': "ops' = b # bs"
      by (cases ops') auto
    from assms have "scanComputeOps k b ops' ([], []) =
      (case scanComputeOps k a ops ([], []) of
        Inr (failure d, r) \<Rightarrow> Inr (failure (inconsistentDistribution b), r)
      | res \<Rightarrow> res)"
      by (rule scanComputeOps_sameLevel0)
    then show ?thesis
      unfolding Cons ops' getDistributionTileConfig_Cons list.sel .
  qed
  have same: "getDistributionTileConfigFromLoweringConfig k ops'
                = getDistributionTileConfigFromLoweringConfig k ops"
    if "opId (hd ops) = opId (hd ops')"
    using main diag that
    by (auto simp: inconsistentDistribution_def
        split: sum.splits prod.splits LogicalResult.splits)
  from main diag same show ?thesis by blast
qed

lemma getLoweringConfig_set:
  "getLoweringConfig (setLoweringConfig op config) = Some config"
  by (simp add: getLoweringConfig_def setLoweringConfig_def)

theorem level0_determines_result_witness:
  "getDistributionTileConfigFromLoweringConfig 3
     [setLoweringConfig (exampleOp 5 [0, 1] [[4, 4], [2, 2]] [])
        (LoweringConfigAttr_get [[4, 4], [8, 8]] [[], [1, 0]] [16]),
      exampleOp 6 [0, 1] [[4, 8]] []]
   = getDistributionTileConfigFromLoweringConfig 3
     [exampleOp 5 [0, 1] [[4, 4], [2, 2]] [], exampleOp 6 [0, 1] [[4, 8]] []]"
proof -
  let ?a = "exampleOp 5 [0, 1] [[4, 4], [2, 2]] []"
  let ?a' = "setLoweringConfig ?a (LoweringConfigAttr_get [[4, 4], [8, 8]] [[], [1, 0]] [16])"
  let ?b = "exampleOp 6 [0, 1] [[4, 8]] []"
  have ga: "getLoweringConfig ?a = Some (LoweringConfigAttr_get [[4, 4], [2, 2]] [] [])"
    by (simp add: exampleOp_def getLoweringConfig_def)
  have gb: "getLoweringConfig ?b = Some (LoweringConfigAttr_get [[4, 8]] [] [])"
    by (simp add: exampleOp_def getLoweringConfig_def)
  have pa: "partitionableLoopsInterface ?a' = partitionableLoopsInterface ?a"
    by (simp add: setLoweringConfig_def)
  have 1: "sameLevel0 3 ?a ?a'"
    by (simp add: sameLevel0_def pa ga getLoweringConfig_set getTileSizeVals_get
        getTileInterchangeVals_get)
  have 2: "sameLevel0 3 ?b ?b"
    by (simp add: sameLevel0_def gb)
  have 3: "opId (hd [?a, ?b]) = opId (hd [?a', ?b])"
    by (simp add: setLoweringConfig_def)
  from 1 2 have "list_all2 (sameLevel0 3) [?a, ?b] [?a', ?b]" by simp
  from level0_determines_result [OF this] 3 show ?thesis by blast
qed

end
